theory Spec2Isabelle
  imports Complex_Main "HOL-Library.Word"
begin

unbundle bit_operations_syntax

section \<open>Modelling conventions and the data of the routing client\<close>

text \<open>
  JavaScript numbers that carry coordinates, distances and times are modelled as
  \<open>real\<close>; numbers that are used as identifiers, counters and array indices are
  modelled as \<open>int\<close> (they stay far below \<open>2 ^ 53\<close>, where a double is exact).
  A value that can be \<^verbatim>\<open>undefined\<close> at run time is an \<open>option\<close>, and a thrown
  exception is the left summand of a sum type.
\<close>

datatype error = TypeError

subsection \<open>routing/Api.ts\<close>

record RoutingArgs =
  points :: "(real \<times> real) list"
  host :: "string option"
  basePath :: "string option"
  vehicle :: "string option"

text \<open>
  The object literal that \<^verbatim>\<open>QueryStore.routeIfAllPointsSet\<close> hands to \<^verbatim>\<open>route\<close> carries
  two properties beyond the interface \<^verbatim>\<open>RoutingArgs\<close>: \<^verbatim>\<open>key\<close> and \<^verbatim>\<open>points_encoded\<close>.
\<close>

record CallArgs = RoutingArgs +
  key :: string
  points_encoded :: bool

datatype Algorithm = alternative_route | round_trip

record RoutingRequest =
  points :: "(real \<times> real) list"
  vehicle :: string
  locale' :: string
  debug :: bool
  points_encoded :: bool
  instructions :: bool
  elevation :: bool
  optimize :: string
  alternative_route_max_paths :: "int option"
  ch_disable :: "bool option"
  algorithm :: "Algorithm option"

record RoutingFeature =
  elevation :: bool

record RoutingVehicle =
  key :: string
  version :: string
  import_date :: string
  features :: RoutingFeature

record ApiInfo =
  import_date :: string
  version :: string
  bbox :: "real \<times> real \<times> real \<times> real"
  vehicles :: "RoutingVehicle list"

record LineString =
  type :: string
  coordinates :: "real list list"

record Instruction =
  distance :: real
  interval :: "int \<times> int"
  points :: "real list list"
  sign :: int
  text' :: string
  time :: real

text \<open>
  Of \<^verbatim>\<open>BasePath\<close> only the fields that the decoding pipeline reads are named; the
  others (\<^verbatim>\<open>distance\<close>, \<^verbatim>\<open>time\<close>, \<^verbatim>\<open>bbox\<close>, \<^verbatim>\<open>details\<close>, ...) travel in the
  extension slot of the record and are copied by the object spread.  The field
  \<^verbatim>\<open>instructions\<close> is \<open>None\<close> when the property is missing (falsy).
\<close>

record Path =
  points_encoded :: bool
  instructions :: "Instruction list option"
  points :: LineString
  snapped_waypoints :: LineString

record RoutingResult =
  paths :: "Path list"

section \<open>The routing client (routing/Api.ts)\<close>

definition ghKey :: string where
  "ghKey = ''fb45b8b2-fdda-4093-ac1a-8b57b4e50add''"

text \<open>
  \<^verbatim>\<open>createRequest\<close> builds the body of the route request.  It accepts every object that
  has the properties of \<^verbatim>\<open>RoutingArgs\<close>, whatever else the object carries.
  \<^verbatim>\<open>args.vehicle || 'car'\<close> takes \<^verbatim>\<open>'car'\<close> when \<^verbatim>\<open>vehicle\<close> is falsy: missing or the
  empty string.
\<close>

definition createRequest :: "'a RoutingArgs_scheme \<Rightarrow> RoutingRequest" where
  "createRequest args =
     \<lparr>RoutingRequest.points = RoutingArgs.points args,
      RoutingRequest.vehicle =
        (case RoutingArgs.vehicle args of
           None \<Rightarrow> ''car''
         | Some v \<Rightarrow> if v = '''' then ''car'' else v),
      locale' = ''en'',
      debug = False,
      RoutingRequest.points_encoded = True,
      RoutingRequest.instructions = True,
      RoutingRequest.elevation = False,
      optimize = ''false'',
      alternative_route_max_paths = Some 2,
      ch_disable = Some True,
      algorithm = Some alternative_route\<rparr>"

text \<open>
  \<^verbatim>\<open>Array.prototype.slice(start, end)\<close>: negative positions count from the end, both
  positions are clamped to the array, and the element at \<^verbatim>\<open>end\<close> is not included.
\<close>

definition array_slice :: "'a list \<Rightarrow> int \<Rightarrow> int \<Rightarrow> 'a list" where
  "array_slice xs start fin =
     (let len = int (length xs);
          k = (if start < 0 then max (len + start) 0 else min start len);
          final = (if fin < 0 then max (len + fin) 0 else min fin len)
      in take (nat (final - k)) (drop (nat k) xs))"

text \<open>
  \<^verbatim>\<open>setPointsOnInstructions\<close> returns the value that \<^verbatim>\<open>decodeResult\<close> stores in the property
  \<^verbatim>\<open>instructions\<close> of the path: the instructions with their points set, or the falsy
  value that was there.
\<close>

definition setPointsOnInstructions :: "'a Path_scheme \<Rightarrow> Instruction list option" where
  "setPointsOnInstructions path =
     (case Path.instructions path of
        Some ins \<Rightarrow>
          Some (map (\<lambda>instruction.
                       instruction\<lparr>Instruction.points :=
                         array_slice (coordinates (Path.points path))
                           (fst (interval instruction)) (snd (interval instruction) + 1)\<rparr>)
                  ins)
      | None \<Rightarrow> None)"

subsection \<open>Decoding the compact geometry\<close>

text \<open>
  \<^verbatim>\<open>String.prototype.charCodeAt\<close> yields \<^verbatim>\<open>NaN\<close> (here \<open>None\<close>) outside the string.  The
  encoded geometry is ASCII; strings are lists of 8-bit characters.
\<close>

definition charCodeAt :: "string \<Rightarrow> nat \<Rightarrow> int option" where
  "charCodeAt s i = (if i < length s then Some (of_char (s ! i)) else None)"

text \<open>
  The loop \<^verbatim>\<open>do { b = encoded.charCodeAt(index++) - 63; result |= (b & 0x1f) << shift;
  shift += 5 } while (b >= 0x20)\<close>, which \<^verbatim>\<open>decodePath\<close> runs for every number it reads.
  It returns the new \<^verbatim>\<open>index\<close> and \<^verbatim>\<open>result\<close>.  The bitwise operators work on 32-bit
  integers and \<^verbatim>\<open><<\<close> takes its shift count modulo 32.  With \<^verbatim>\<open>b = NaN\<close> the bits
  \<^verbatim>\<open>b & 0x1f\<close> are 0 and the comparison \<^verbatim>\<open>b >= 0x20\<close> is false, so the loop ends when
  it reads beyond the string.
\<close>

function readValue :: "string \<Rightarrow> nat \<Rightarrow> nat \<Rightarrow> 32 word \<Rightarrow> nat \<times> 32 word" where
  "readValue encoded index shift result =
     (case charCodeAt encoded index of
        None \<Rightarrow> (index + 1, result)
      | Some c \<Rightarrow>
          (if c - 63 \<ge> 0x20
           then readValue encoded (index + 1) (shift + 5)
                  (result OR push_bit (shift mod 32) (word_of_int (c - 63) AND 0x1f))
           else (index + 1, result OR push_bit (shift mod 32) (word_of_int (c - 63) AND 0x1f))))"
  by pat_completeness auto
termination
  by (relation "measure (\<lambda>(encoded, index, shift, result). length encoded - index)")
     (auto simp: charCodeAt_def split: if_splits)

declare readValue.simps [simp del]

text \<open>\<^verbatim>\<open>result & 1 ? ~(result >> 1) : result >> 1\<close>, with the arithmetic shift \<^verbatim>\<open>>>\<close>.\<close>

definition unzigzag :: "32 word \<Rightarrow> int" where
  "unzigzag result =
     sint (if result AND 1 \<noteq> 0 then NOT (signed_drop_bit 1 result)
           else signed_drop_bit 1 result)"

lemma readValue_index: "index < fst (readValue encoded index shift result)"
proof (induction encoded index shift result rule: readValue.induct)
  case (1 encoded index shift result)
  show ?case
  proof (cases "charCodeAt encoded index")
    case None
    then show ?thesis by (subst readValue.simps) simp
  next
    case (Some c)
    show ?thesis
    proof (cases "c - 63 \<ge> 0x20")
      case True
      with Some "1.IH" [OF Some True] show ?thesis
        by (subst readValue.simps) simp
    next
      case False
      with Some show ?thesis by (subst readValue.simps) simp
    qed
  qed
qed

text \<open>
  The loop \<^verbatim>\<open>while (index < len)\<close> of \<^verbatim>\<open>decodePath\<close>.  The running sums \<^verbatim>\<open>lat\<close>, \<^verbatim>\<open>lng\<close>
  and \<^verbatim>\<open>ele\<close> are sums of 32-bit integers and are modelled as unbounded integers.  The
  products \<^verbatim>\<open>lng * 1e-5\<close> and \<^verbatim>\<open>lat * 1e-5\<close> and the quotient \<^verbatim>\<open>ele / 100\<close> are floating
  point operations: the parameter \<open>fl\<close> stands for the rounding of a real number to a
  double, applied to the literal \<^verbatim>\<open>1e-5\<close> and to the result of each operation.
\<close>

function decodeLoop ::
  "(real \<Rightarrow> real) \<Rightarrow> string \<Rightarrow> bool \<Rightarrow> nat \<Rightarrow> int \<Rightarrow> int \<Rightarrow> int \<Rightarrow> real list list \<Rightarrow> real list list"
where
  "decodeLoop fl encoded is3D index lat lng ele array =
     (if index < length encoded then
        (let r1 = readValue encoded index 0 0;
             lat1 = lat + unzigzag (snd r1);
             r2 = readValue encoded (fst r1) 0 0;
             lng1 = lng + unzigzag (snd r2)
         in if is3D then
              (let r3 = readValue encoded (fst r2) 0 0;
                   ele1 = ele + unzigzag (snd r3)
               in decodeLoop fl encoded is3D (fst r3) lat1 lng1 ele1
                    (array @ [[fl (of_int lng1 * fl (1 / 100000)),
                               fl (of_int lat1 * fl (1 / 100000)),
                               fl (of_int ele1 / 100)]]))
            else decodeLoop fl encoded is3D (fst r2) lat1 lng1 ele
                   (array @ [[fl (of_int lng1 * fl (1 / 100000)),
                              fl (of_int lat1 * fl (1 / 100000))]]))
      else array)"
  by pat_completeness auto
termination
proof (relation "measure (\<lambda>(fl, encoded, is3D, index, lat, lng, ele, array). length encoded - index)")
  show "wf (measure (\<lambda>(fl, encoded, is3D, index, lat, lng, ele, array). length encoded - index))"
    by simp
next
  fix fl :: "real \<Rightarrow> real" and encoded is3D index and lat lng ele :: int
    and array :: "real list list" and r1 lat1 r2 lng1 r3 ele1
  assume "index < length encoded" "r1 = readValue encoded index 0 0"
    "r2 = readValue encoded (fst r1) 0 0" "r3 = readValue encoded (fst r2) 0 0"
  then have "index < fst r1" "fst r1 < fst r2" "fst r2 < fst r3"
    by (simp_all add: readValue_index)
  with \<open>index < length encoded\<close>
  show "((fl, encoded, is3D, fst r3, lat1, lng1, ele1,
          array @ [[fl (real_of_int lng1 * fl (1 / 100000)),
                    fl (real_of_int lat1 * fl (1 / 100000)), fl (real_of_int ele1 / 100)]]),
         fl, encoded, is3D, index, lat, lng, ele, array)
        \<in> measure (\<lambda>(fl, encoded, is3D, index, lat, lng, ele, array). length encoded - index)"
    by simp
next
  fix fl :: "real \<Rightarrow> real" and encoded is3D index and lat lng ele :: int
    and array :: "real list list" and r1 lat1 r2 lng1
  assume "index < length encoded" "r1 = readValue encoded index 0 0"
    "r2 = readValue encoded (fst r1) 0 0"
  then have "index < fst r1" "fst r1 < fst r2"
    by (simp_all add: readValue_index)
  with \<open>index < length encoded\<close>
  show "((fl, encoded, is3D, fst r2, lat1, lng1, ele,
          array @ [[fl (real_of_int lng1 * fl (1 / 100000)),
                    fl (real_of_int lat1 * fl (1 / 100000))]]),
         fl, encoded, is3D, index, lat, lng, ele, array)
        \<in> measure (\<lambda>(fl, encoded, is3D, index, lat, lng, ele, array). length encoded - index)"
    by simp
qed

declare decodeLoop.simps [simp del]

definition decodePath :: "(real \<Rightarrow> real) \<Rightarrow> string \<Rightarrow> bool \<Rightarrow> real list list" where
  "decodePath fl encoded is3D = decodeLoop fl encoded is3D 0 0 0 0 []"


section \<open>The query store: data\<close>

subsection \<open>stores/QueryStore\<close>

record Coordinate =
  lat :: real
  lng :: real

datatype QueryPointType = From | To | Via

text \<open>
  \<^verbatim>\<open>point\<close> is not a member of the interface \<^verbatim>\<open>QueryPoint\<close>: it is the property that
  the \<^verbatim>\<open>ClearPoints\<close> branch of the reducer writes, and that later object spreads
  carry along.  It is \<open>None\<close> on an object that does not have it.
\<close>

record QueryPoint =
  coordinate :: Coordinate
  queryText :: string
  isInitialized :: bool
  color :: string
  id' :: int
  type :: QueryPointType
  point :: "Coordinate option"

text \<open>
  \<^verbatim>\<open>routingVehicle\<close> is \<open>None\<close> when the property holds \<^verbatim>\<open>undefined\<close>, which the
  \<^verbatim>\<open>InfoReceived\<close> branch stores for an empty vehicle list.
\<close>

record QueryStoreState =
  queryPoints :: "QueryPoint list"
  nextId :: int
  routingVehicle :: "RoutingVehicle option"

subsection \<open>actions/Actions.ts\<close>

text \<open>
  One constructor per action class; the arguments are the constructor arguments of the
  class, in their order.  \<^verbatim>\<open>atIndex\<close> of \<^verbatim>\<open>AddPoint\<close> is an integer.
\<close>

datatype Action =
    InfoReceived ApiInfo
  | SetPoint QueryPoint
  | SetVehicle RoutingVehicle
  | AddPoint int Coordinate bool
  | ClearPoints
  | RemovePoint QueryPoint
  | InvalidatePoint QueryPoint
  | RouteReceived RoutingResult
  | ClearRoute

section \<open>The query store: the reducer\<close>

fun getMarkerColor :: "QueryPointType \<Rightarrow> string" where
  "getMarkerColor From = ''#417900''"
| "getMarkerColor To = ''#F97777''"
| "getMarkerColor Via = ''#76D0F7''"

text \<open>
  \<^verbatim>\<open>numberOfPoints\<close> is an \<open>int\<close>: the \<^verbatim>\<open>RemovePoint\<close> branch passes
  \<^verbatim>\<open>length - 1\<close>, which is \<open>-1\<close> for the empty list.
\<close>

definition getPointType :: "nat \<Rightarrow> int \<Rightarrow> QueryPointType" where
  "getPointType index numberOfPoints =
     (if index = 0 then From
      else if int index = numberOfPoints - 1 then To
      else Via)"

text \<open>
  \<^verbatim>\<open>routeIfAllPointsSet\<close> returns nothing; its effect is the call of \<^verbatim>\<open>route\<close>.  The
  model returns the argument of that call (\<open>None\<close> when no call is made).  Reading
  \<^verbatim>\<open>state.routingVehicle.key\<close> throws a \<^verbatim>\<open>TypeError\<close> when \<^verbatim>\<open>routingVehicle\<close> is
  \<^verbatim>\<open>undefined\<close>.
\<close>

definition routeIfAllPointsSet :: "QueryStoreState \<Rightarrow> error + CallArgs option" where
  "routeIfAllPointsSet state =
     (if length (queryPoints state) > 1 \<and> list_all isInitialized (queryPoints state) then
        let rawPoints = map (\<lambda>pt. (lng (coordinate pt), lat (coordinate pt)))
                          (queryPoints state)
        in (case routingVehicle state of
              None \<Rightarrow> Inl TypeError
            | Some v \<Rightarrow>
                Inr (Some \<lparr>RoutingArgs.points = rawPoints, host = None, basePath = None,
                           RoutingArgs.vehicle = Some (RoutingVehicle.key v),
                           CallArgs.key = ghKey, CallArgs.points_encoded = False\<rparr>))
      else Inr None)"

definition getEmptyPoint :: "int \<Rightarrow> QueryPointType \<Rightarrow> QueryPoint" where
  "getEmptyPoint i t =
     \<lparr>coordinate = \<lparr>lat = 0, lng = 0\<rparr>, queryText = '''', isInitialized = False,
      color = getMarkerColor t, id' = i, type = t, point = None\<rparr>"

definition getInitialState :: QueryStoreState where
  "getInitialState =
     \<lparr>queryPoints = [getEmptyPoint 0 From, getEmptyPoint 1 To],
      nextId = 2,
      routingVehicle =
        Some \<lparr>key = '''', RoutingVehicle.version = '''',
              RoutingVehicle.import_date = '''',
              features = \<lparr>RoutingFeature.elevation = False\<rparr>\<rparr>\<rparr>"

fun replace :: "QueryPoint list \<Rightarrow> QueryPoint \<Rightarrow> QueryPoint list" where
  "replace [] newPoint = []"
| "replace (pt # pts) newPoint =
     (if id' pt = id' newPoint then newPoint else pt) # replace pts newPoint"

text \<open>
  \<^verbatim>\<open>Array.prototype.splice(start, 0, item)\<close>: a negative \<^verbatim>\<open>start\<close> counts from the
  end, and the position is clamped to the array.
\<close>

definition splice_insert :: "'a list \<Rightarrow> int \<Rightarrow> 'a \<Rightarrow> 'a list" where
  "splice_insert xs start item =
     (let len = int (length xs);
          k = (if start < 0 then max (len + start) 0 else min start len)
      in take (nat k) xs @ item # drop (nat k) xs)"

text \<open>\<^verbatim>\<open>Array.prototype.find\<close>: the first element that satisfies the predicate.\<close>

fun find_first :: "('a \<Rightarrow> bool) \<Rightarrow> 'a list \<Rightarrow> 'a option" where
  "find_first P [] = None"
| "find_first P (x # xs) = (if P x then Some x else find_first P xs)"

text \<open>Reading \<^verbatim>\<open>xs[0]\<close>: \<^verbatim>\<open>undefined\<close> on the empty array.\<close>

fun index0 :: "'a list \<Rightarrow> 'a option" where
  "index0 [] = None"
| "index0 (x # xs) = Some x"

text \<open>
  The callback of \<^verbatim>\<open>map((point, i) => ...)\<close> in the \<^verbatim>\<open>AddPoint\<close> and \<^verbatim>\<open>RemovePoint\<close>
  branches.
\<close>

definition retype :: "int \<Rightarrow> nat \<times> QueryPoint \<Rightarrow> QueryPoint" where
  "retype numberOfPoints ip =
     (let t = getPointType (fst ip) numberOfPoints
      in (snd ip)\<lparr>color := getMarkerColor t, type := t\<rparr>)"

definition andRoute :: "QueryStoreState \<Rightarrow> error + QueryStoreState \<times> CallArgs option" where
  "andRoute newState =
     (case routeIfAllPointsSet newState of
        Inl e \<Rightarrow> Inl e
      | Inr call \<Rightarrow> Inr (newState, call))"

text \<open>
  The reducer.  The result is the new state together with the argument of the call of
  \<^verbatim>\<open>route\<close>, if the transition makes one; \<open>Inl\<close> when the transition throws.  The
  parameter \<open>str\<close> stands for JavaScript's conversion of a number to a string, used by
  \<^verbatim>\<open>action.coordinate.lng + ', ' + action.coordinate.lat\<close>.
\<close>

fun reduce ::
  "(real \<Rightarrow> string) \<Rightarrow> QueryStoreState \<Rightarrow> Action \<Rightarrow> error + QueryStoreState \<times> CallArgs option"
where
  "reduce str state (SetPoint p) =
     andRoute (state\<lparr>queryPoints := replace (queryPoints state) p\<rparr>)"
| "reduce str state (InvalidatePoint p) =
     Inr (state\<lparr>queryPoints := replace (queryPoints state) (p\<lparr>isInitialized := False\<rparr>)\<rparr>,
          None)"
| "reduce str state ClearPoints =
     Inr (state\<lparr>queryPoints :=
            map (\<lambda>pt. pt\<lparr>queryText := '''', point := Some \<lparr>lat = 0, lng = 0\<rparr>,
                                isInitialized := False\<rparr>)
              (queryPoints state)\<rparr>,
          None)"
| "reduce str state (AddPoint atIndex coord isInit) =
     (let queryText = (if isInit then str (lng coord) @ '', '' @ str (lat coord) else '''');
          tmp = splice_insert (queryPoints state) atIndex
                  \<lparr>coordinate = coord, queryText = queryText, isInitialized = isInit,
                   color = '''', id' = nextId state, type = Via, point = None\<rparr>;
          newPoints = map (retype (int (length tmp))) (enumerate 0 tmp)
      in andRoute (state\<lparr>nextId := nextId state + 1, queryPoints := newPoints\<rparr>))"
| "reduce str state (RemovePoint p) =
     (let newPoints =
            map (retype (int (length (queryPoints state)) - 1))
              (enumerate 0 (filter (\<lambda>pt. id' pt \<noteq> id' p) (queryPoints state)))
      in andRoute (state\<lparr>queryPoints := newPoints\<rparr>))"
| "reduce str state (InfoReceived result) =
     (let car = find_first (\<lambda>vehicle. RoutingVehicle.key vehicle = ''car'') (vehicles result)
      in Inr (state\<lparr>routingVehicle :=
                (case car of Some c \<Rightarrow> Some c | None \<Rightarrow> index0 (vehicles result))\<rparr>,
              None))"
| "reduce str state (SetVehicle v) =
     andRoute (state\<lparr>routingVehicle := Some v\<rparr>)"
| "reduce str state _ = Inr (state, None)"

text \<open>The branches of the reducer that call \<^verbatim>\<open>routeIfAllPointsSet\<close>.\<close>

fun callsRoute :: "Action \<Rightarrow> bool" where
  "callsRoute (SetPoint p) = True"
| "callsRoute (AddPoint atIndex coord isInit) = True"
| "callsRoute (RemovePoint p) = True"
| "callsRoute (SetVehicle v) = True"
| "callsRoute _ = False"

text \<open>
  Applying a sequence of actions: the reducer is applied to the state that the previous
  action left, and the calls of \<^verbatim>\<open>route\<close> are collected in order.  A transition that
  throws produces no state, and the run ends with its exception.  (A session in which
  the store keeps its state when a transition throws visits the states of the run
  without the throwing actions.)
\<close>

fun run ::
  "(real \<Rightarrow> string) \<Rightarrow> QueryStoreState \<Rightarrow> Action list \<Rightarrow> error + QueryStoreState \<times> CallArgs list"
where
  "run str state [] = Inr (state, [])"
| "run str state (a # rest) =
     (case reduce str state a of
        Inl e \<Rightarrow> Inl e
      | Inr (state', call) \<Rightarrow>
          (case run str state' rest of
             Inl e \<Rightarrow> Inl e
           | Inr (final, calls) \<Rightarrow>
               Inr (final, (case call of None \<Rightarrow> [] | Some c \<Rightarrow> [c]) @ calls)))"

fun isAddPoint :: "Action \<Rightarrow> bool" where
  "isAddPoint (AddPoint atIndex coord isInit) = True"
| "isAddPoint _ = False"

fun isAddOrRemove :: "Action \<Rightarrow> bool" where
  "isAddOrRemove (AddPoint atIndex coord isInit) = True"
| "isAddOrRemove (RemovePoint p) = True"
| "isAddOrRemove _ = False"

text \<open>
  The actions that leave a profile in the state: all but an \<^verbatim>\<open>InfoReceived\<close> whose
  vehicle list is empty.
\<close>

fun storesProfile :: "Action \<Rightarrow> bool" where
  "storesProfile (InfoReceived result) =
     (find_first (\<lambda>vehicle. RoutingVehicle.key vehicle = ''car'') (vehicles result) \<noteq> None \<or>
      vehicles result \<noteq> [])"
| "storesProfile _ = True"

text \<open>The ids of the waypoints of a state, in order.\<close>

definition ids :: "QueryStoreState \<Rightarrow> int list" where
  "ids state = map id' (queryPoints state)"

text \<open>
  \<open>removalsPresent\<close> holds of a run when the point of every \<^verbatim>\<open>RemovePoint\<close> action is,
  by its id, in the waypoint list at the moment the action is applied.
\<close>

fun removalsPresent :: "(real \<Rightarrow> string) \<Rightarrow> QueryStoreState \<Rightarrow> Action list \<Rightarrow> bool" where
  "removalsPresent str state [] = True"
| "removalsPresent str state (a # rest) =
     ((case a of RemovePoint p \<Rightarrow> id' p \<in> set (ids state) | _ \<Rightarrow> True) \<and>
      (case reduce str state a of
         Inl e \<Rightarrow> True
       | Inr (state', call) \<Rightarrow> removalsPresent str state' rest))"

subsection \<open>The invariants of the specification\<close>

text \<open>
  The role that the specification gives to index \<open>i\<close> of a list of \<open>n\<close> waypoints:
  start at index 0, end at the last index, via in between.  \<open>rolesConsistent\<close> is the
  invariant of the waypoint list: every waypoint has the role of its index and the color
  of its role.
\<close>

definition roleAt :: "nat \<Rightarrow> nat \<Rightarrow> QueryPointType" where
  "roleAt n i = (if i = 0 then From else if i = n - 1 then To else Via)"

definition rolesConsistent :: "QueryPoint list \<Rightarrow> bool" where
  "rolesConsistent ps =
     (map QueryPoint.type ps = map (roleAt (length ps)) [0..<length ps] \<and>
      list_all (\<lambda>p. color p = getMarkerColor (QueryPoint.type p)) ps)"

text \<open>
  The waypoint ids are pairwise different and all below \<^verbatim>\<open>nextId\<close>.
\<close>

definition idsFresh :: "QueryStoreState \<Rightarrow> bool" where
  "idsFresh state = (distinct (ids state) \<and> list_all (\<lambda>i. i < nextId state) (ids state))"

section \<open>Example values\<close>

text \<open>
  Concrete inputs at which the theorems below are evaluated.  \<open>noText\<close> instantiates
  the number-to-string conversion; no property depends on what it prints.
\<close>

definition noText :: "real \<Rightarrow> string" where
  "noText x = ''''"

definition pointA :: QueryPoint where
  "pointA = (getEmptyPoint 0 From)\<lparr>coordinate := \<lparr>lat = 52, lng = 13\<rparr>,
               queryText := ''A'', isInitialized := True\<rparr>"

definition pointB :: QueryPoint where
  "pointB = (getEmptyPoint 1 To)\<lparr>coordinate := \<lparr>lat = 48, lng = 11\<rparr>,
               queryText := ''B'', isInitialized := True\<rparr>"

definition halfState :: QueryStoreState where
  "halfState = getInitialState\<lparr>queryPoints := [pointA, getEmptyPoint 1 To]\<rparr>"

definition readyState :: QueryStoreState where
  "readyState = getInitialState\<lparr>queryPoints := [pointA, pointB]\<rparr>"

definition profile :: "string \<Rightarrow> RoutingVehicle" where
  "profile k = \<lparr>key = k, RoutingVehicle.version = ''1'', RoutingVehicle.import_date = ''d'',
                features = \<lparr>RoutingFeature.elevation = False\<rparr>\<rparr>"

definition apiInfo :: "RoutingVehicle list \<Rightarrow> ApiInfo" where
  "apiInfo vs = \<lparr>import_date = ''d'', version = ''1'', bbox = (0, 0, 0, 0), vehicles = vs\<rparr>"

definition origin :: Coordinate where
  "origin = \<lparr>lat = 0, lng = 0\<rparr>"

definition sentinelCall :: CallArgs where
  "sentinelCall =
     \<lparr>RoutingArgs.points = [(13, 52), (11, 48)], host = None, basePath = None,
      RoutingArgs.vehicle = Some '''', CallArgs.key = ghKey,
      CallArgs.points_encoded = False\<rparr>"

definition turn :: Instruction where
  "turn = \<lparr>distance = 10, interval = (0, 2), Instruction.points = [], sign = 0,
           text' = ''Continue'', time = 5\<rparr>"

definition fivePointPath :: Path where
  "fivePointPath =
     \<lparr>Path.points_encoded = True, Path.instructions = Some [turn],
      Path.points = \<lparr>LineString.type = ''LineString'',
                      coordinates = [[0, 0], [1, 1], [2, 2], [3, 3], [4, 4]]\<rparr>,
      snapped_waypoints = \<lparr>LineString.type = ''LineString'', coordinates = []\<rparr>\<rparr>"

section \<open>Properties of the query store\<close>

subsection \<open>Auxiliary facts\<close>

lemma find_first_None: "find_first P xs = None \<longleftrightarrow> (\<forall>x\<in>set xs. \<not> P x)"
  by (induction xs) auto

lemma find_first_Some:
  "find_first P xs = Some c \<Longrightarrow>
     \<exists>pre post. xs = pre @ c # post \<and> P c \<and> (\<forall>x\<in>set pre. \<not> P x)"
proof (induction xs)
  case Nil
  then show ?case by simp
next
  case (Cons x xs)
  show ?case
  proof (cases "P x")
    case True
    with Cons.prems have "x # xs = [] @ c # xs \<and> P c \<and> (\<forall>y\<in>set []. \<not> P y)" by simp
    then show ?thesis by blast
  next
    case False
    with Cons obtain pre post where "xs = pre @ c # post" "P c" "\<forall>y\<in>set pre. \<not> P y"
      by auto
    with False have "x # xs = (x # pre) @ c # post \<and> P c \<and> (\<forall>y\<in>set (x # pre). \<not> P y)"
      by simp
    then show ?thesis by blast
  qed
qed

lemma index0_eq: "index0 xs = (if xs = [] then None else Some (xs ! 0))"
  by (cases xs) simp_all

lemma routeIfAllPointsSet_Some:
  "routeIfAllPointsSet s = Inr call \<Longrightarrow>
     (call \<noteq> None) = (2 \<le> length (queryPoints s) \<and> (\<forall>w\<in>set (queryPoints s). isInitialized w))"
  by (cases "routingVehicle s")
     (auto simp: routeIfAllPointsSet_def list_all_iff Let_def split: if_splits)

lemma routeIfAllPointsSet_args:
  "routeIfAllPointsSet s = Inr (Some c) \<Longrightarrow>
     RoutingArgs.points c = map (\<lambda>w. (lng (coordinate w), lat (coordinate w))) (queryPoints s) \<and>
     RoutingArgs.vehicle c = map_option RoutingVehicle.key (routingVehicle s) \<and>
     routingVehicle s \<noteq> None"
  by (auto simp: routeIfAllPointsSet_def Let_def split: if_splits option.splits)

lemma andRoute_Inr:
  "andRoute s = Inr (s', call) \<longleftrightarrow> s' = s \<and> routeIfAllPointsSet s = Inr call"
  by (auto simp: andRoute_def split: sum.splits)

lemma andRoute_returns:
  "routingVehicle s \<noteq> None \<Longrightarrow> \<exists>call. andRoute s = Inr (s, call)"
  by (auto simp: andRoute_def routeIfAllPointsSet_def Let_def split: sum.splits)

lemma andRoute_total:
  "routingVehicle s = Some v \<Longrightarrow> \<exists>s' call. andRoute s = Inr (s', call)"
  using andRoute_returns [of s] by auto

lemma reduce_returns:
  assumes "routingVehicle state = Some v"
  shows "\<exists>state' call. reduce str state a = Inr (state', call)"
proof (cases a)
  case (SetPoint p)
  with assms show ?thesis by (simp add: andRoute_total)
next
  case (AddPoint i c b)
  with assms show ?thesis by (simp add: Let_def andRoute_total)
next
  case (RemovePoint p)
  with assms show ?thesis by (simp add: Let_def andRoute_total)
next
  case (SetVehicle v)
  then show ?thesis by (simp add: andRoute_total)
qed simp_all

text \<open>
  A transition throws only when the state holds no profile and the transition is about
  to route; a run of actions that all leave a profile in the state returns.
\<close>

lemma reduce_throws:
  assumes "reduce str state a = Inl e"
  shows "routingVehicle state = None \<and> callsRoute a \<and> e = TypeError"
proof -
  have "routingVehicle state = None"
  proof (rule ccontr)
    assume "routingVehicle state \<noteq> None"
    then obtain v where "routingVehicle state = Some v" by blast
    from reduce_returns [OF this, of str a] assms show False by auto
  qed
  moreover from assms have "callsRoute a"
    by (cases a) (simp_all add: Let_def)
  moreover have "e = TypeError"
    by (cases e) simp
  ultimately show ?thesis by simp
qed

lemma reduce_profile_defined:
  assumes "reduce str s a = Inr (s', call)" and "routingVehicle s = Some v"
      and "storesProfile a"
  shows "\<exists>v'. routingVehicle s' = Some v'"
proof (cases a)
  case (InfoReceived result)
  with assms show ?thesis
    by (cases "vehicles result") (auto simp: Let_def split: option.splits)
qed (use assms in \<open>auto simp: andRoute_Inr Let_def\<close>)

lemma run_returns:
  "list_all storesProfile as \<Longrightarrow> routingVehicle s = Some v \<Longrightarrow>
     \<exists>s' calls. run str s as = Inr (s', calls)"
proof (induction as arbitrary: s v)
  case Nil
  then show ?case by simp
next
  case (Cons a rest)
  from reduce_returns [OF Cons.prems(2)] obtain s1 call where
    step: "reduce str s a = Inr (s1, call)" by blast
  from Cons.prems(1) have "storesProfile a" by simp
  from reduce_profile_defined [OF step Cons.prems(2) this] obtain v1 where
    "routingVehicle s1 = Some v1" by blast
  with Cons.IH [of s1 v1] Cons.prems(1) obtain s' calls where
    "run str s1 rest = Inr (s', calls)"
    by auto
  with step show ?case by simp
qed

subsection \<open>Route triggering\<close>

text \<open>
  C1 (as amended): for every transition that returns, a route request is emitted only
  if the resulting state has at least two waypoints and every waypoint is initialized.
  On the transitions \<^verbatim>\<open>SetPoint\<close>, \<^verbatim>\<open>AddPoint\<close>, \<^verbatim>\<open>RemovePoint\<close> and \<^verbatim>\<open>SetVehicle\<close> the
  request is emitted if and only if the resulting state is in that condition; the other
  transitions (\<^verbatim>\<open>InvalidatePoint\<close>, \<^verbatim>\<open>ClearPoints\<close>, \<^verbatim>\<open>InfoReceived\<close> and the actions the
  store does not handle) emit none.  An emitted request carries the coordinates of the
  resulting state in order, as \<open>(lng, lat)\<close>, and the key of its profile.
\<close>

theorem route_request_iff_ready:
  assumes "reduce str state a = Inr (state', call)"
  shows "(callsRoute a \<longrightarrow>
            (call \<noteq> None) =
              (2 \<le> length (queryPoints state') \<and> (\<forall>w\<in>set (queryPoints state'). isInitialized w))) \<and>
         (\<not> callsRoute a \<longrightarrow> call = None) \<and>
         (call \<noteq> None \<longrightarrow>
            2 \<le> length (queryPoints state') \<and> (\<forall>w\<in>set (queryPoints state'). isInitialized w)) \<and>
         (\<forall>c. call = Some c \<longrightarrow>
            RoutingArgs.points c =
              map (\<lambda>w. (lng (coordinate w), lat (coordinate w))) (queryPoints state') \<and>
            RoutingArgs.vehicle c = map_option RoutingVehicle.key (routingVehicle state'))"
proof (cases a)
  case (SetPoint p)
  with assms show ?thesis
    using routeIfAllPointsSet_Some [of state' call] routeIfAllPointsSet_args [of state']
    by (auto simp: andRoute_Inr)
next
  case (AddPoint i c b)
  with assms show ?thesis
    using routeIfAllPointsSet_Some [of state' call] routeIfAllPointsSet_args [of state']
    by (auto simp: andRoute_Inr Let_def)
next
  case (RemovePoint p)
  with assms show ?thesis
    using routeIfAllPointsSet_Some [of state' call] routeIfAllPointsSet_args [of state']
    by (auto simp: andRoute_Inr Let_def)
next
  case (SetVehicle v)
  with assms show ?thesis
    using routeIfAllPointsSet_Some [of state' call] routeIfAllPointsSet_args [of state']
    by (auto simp: andRoute_Inr)
qed (use assms in \<open>auto simp: Let_def\<close>)

text \<open>
  The transition that completes initialization fires the request: from the state in
  which only the start is set, setting the end emits one request with both coordinates.
\<close>

theorem route_request_iff_ready_witness:
  "reduce noText halfState (SetPoint pointB) =
     Inr (readyState,
          Some \<lparr>RoutingArgs.points = [(13, 52), (11, 48)], host = None, basePath = None,
                RoutingArgs.vehicle = Some '''', CallArgs.key = ghKey,
                CallArgs.points_encoded = False\<rparr>) \<and>
   callsRoute (SetPoint pointB) \<and>
   2 \<le> length (queryPoints readyState) \<and>
   list_all isInitialized (queryPoints readyState)"
proof -
  have step: "reduce noText halfState (SetPoint pointB) =
     Inr (readyState,
          Some \<lparr>RoutingArgs.points = [(13, 52), (11, 48)], host = None, basePath = None,
                RoutingArgs.vehicle = Some '''', CallArgs.key = ghKey,
                CallArgs.points_encoded = False\<rparr>)"
    by (simp add: getInitialState_def halfState_def readyState_def pointA_def pointB_def
          getEmptyPoint_def andRoute_def routeIfAllPointsSet_def)
  from route_request_iff_ready [OF step] step show ?thesis
    by (simp add: list_all_iff)
qed

text \<open>
  C1 as stated, for every transition, fails: \<^verbatim>\<open>InfoReceived\<close> leaves a state with two
  initialized waypoints and emits nothing.
\<close>

theorem route_request_every_transition_counterexample:
  "reduce noText readyState (InfoReceived (apiInfo [profile ''bike''])) =
     Inr (readyState\<lparr>routingVehicle := Some (profile ''bike'')\<rparr>, None) \<and>
   2 \<le> length (queryPoints (readyState\<lparr>routingVehicle := Some (profile ''bike'')\<rparr>)) \<and>
   list_all isInitialized (queryPoints (readyState\<lparr>routingVehicle := Some (profile ''bike'')\<rparr>))"
  by (simp add: readyState_def pointA_def pointB_def apiInfo_def profile_def)

subsection \<open>Waypoint ids\<close>

lemma ids_replace: "map id' (replace ps p) = map id' ps"
  by (induction ps) auto

lemma id_retype: "id' (retype n ip) = id' (snd ip)"
  by (simp add: retype_def Let_def)

lemma ids_retype: "map id' (map (retype n) (enumerate k xs)) = map id' xs"
  by (induction xs arbitrary: k) (simp_all add: id_retype)

lemma ids_retype_comp: "map (id' \<circ> retype n) (enumerate k xs) = map id' xs"
  using ids_retype [of n k xs] by simp

lemma map_splice_insert: "map f (splice_insert xs k x) = splice_insert (map f xs) k (f x)"
  by (simp add: splice_insert_def Let_def take_map drop_map)

lemma set_splice_insert: "set (splice_insert xs k x) = insert x (set xs)"
proof -
  have "set (take n xs) \<union> set (drop n xs) = set xs" for n
    by (metis append_take_drop_id set_append)
  then show ?thesis
    by (auto simp: splice_insert_def Let_def)
qed

lemma distinct_insert_middle:
  "distinct (ys @ x # zs) \<longleftrightarrow> distinct (ys @ zs) \<and> x \<notin> set (ys @ zs)"
  by auto

lemma distinct_splice_insert:
  "distinct (splice_insert xs k x) \<longleftrightarrow> distinct xs \<and> x \<notin> set xs"
  unfolding splice_insert_def Let_def distinct_insert_middle append_take_drop_id ..

lemma length_splice_insert: "length (splice_insert xs k x) = Suc (length xs)"
  by (simp add: splice_insert_def Let_def)

lemma reduce_ids:
  assumes "reduce str s a = Inr (s', call)"
  shows "nextId s' = nextId s + (if isAddPoint a then 1 else 0) \<and>
         (case a of
            AddPoint i c b \<Rightarrow> ids s' = splice_insert (ids s) i (nextId s)
          | RemovePoint p \<Rightarrow> ids s' = filter (\<lambda>i. i \<noteq> id' p) (ids s)
          | _ \<Rightarrow> ids s' = ids s)"
proof (cases a)
  case (SetPoint p)
  with assms show ?thesis by (auto simp: andRoute_Inr ids_def ids_replace)
next
  case (AddPoint i c b)
  define newPt where
    "newPt = \<lparr>coordinate = c,
              queryText = (if b then str (lng c) @ '', '' @ str (lat c) else ''''),
              isInitialized = b, color = '''', id' = nextId s, type = Via, point = None\<rparr>"
  define tmp where "tmp = splice_insert (queryPoints s) i newPt"
  from assms AddPoint have
    s': "queryPoints s' = map (retype (int (length tmp))) (enumerate 0 tmp)" and
    n: "nextId s' = nextId s + 1"
    by (auto simp: andRoute_Inr Let_def tmp_def newPt_def)
  have tmp: "map id' tmp = splice_insert (ids s) i (nextId s)"
    by (simp add: tmp_def newPt_def map_splice_insert ids_def)
  have "ids s' = map id' tmp"
    unfolding ids_def s' by (rule ids_retype)
  with tmp n AddPoint show ?thesis by simp
next
  case (RemovePoint p)
  with assms have
    s': "queryPoints s' =
           map (retype (int (length (queryPoints s)) - 1))
             (enumerate 0 (filter (\<lambda>pt. id' pt \<noteq> id' p) (queryPoints s)))" and
    n: "nextId s' = nextId s"
    by (auto simp: andRoute_Inr Let_def)
  have "ids s' = map id' (filter (\<lambda>pt. id' pt \<noteq> id' p) (queryPoints s))"
    unfolding ids_def s' by (rule ids_retype)
  also have "\<dots> = filter (\<lambda>i. i \<noteq> id' p) (ids s)"
    by (simp add: ids_def filter_map comp_def)
  finally show ?thesis using n RemovePoint by simp
next
  case (SetVehicle v)
  with assms show ?thesis by (auto simp: andRoute_Inr ids_def)
next
  case (InvalidatePoint p)
  with assms show ?thesis by (auto simp: ids_def ids_replace)
qed (use assms in \<open>auto simp: ids_def Let_def\<close>)

lemma reduce_idsFresh:
  assumes "reduce str s a = Inr (s', call)" and "idsFresh s"
  shows "idsFresh s' \<and> nextId s \<le> nextId s' \<and>
         (\<forall>i\<in>set (ids s'). i \<in> set (ids s) \<or> nextId s \<le> i)"
proof (cases a)
  case (AddPoint i c b)
  with reduce_ids [OF assms(1)] assms(2) show ?thesis
    by (auto simp: idsFresh_def list_all_iff distinct_splice_insert set_splice_insert)
next
  case (RemovePoint p)
  with reduce_ids [OF assms(1)] assms(2) show ?thesis
    by (auto simp: idsFresh_def list_all_iff)
qed (use reduce_ids [OF assms(1)] assms(2) in \<open>auto simp: idsFresh_def list_all_iff\<close>)

lemma run_Cons_Inr:
  "run str s (a # rest) = Inr (s', calls) \<Longrightarrow>
     \<exists>s1 call calls1. reduce str s a = Inr (s1, call) \<and> run str s1 rest = Inr (s', calls1)"
  by (auto split: sum.splits)

lemma run_idsFresh:
  "run str s bs = Inr (s', calls) \<Longrightarrow> idsFresh s \<Longrightarrow>
     idsFresh s' \<and> nextId s' = nextId s + int (length (filter isAddPoint bs)) \<and>
     (\<forall>i\<in>set (ids s'). i \<in> set (ids s) \<or> nextId s \<le> i)"
proof (induction bs arbitrary: s calls)
  case Nil
  then show ?case by simp
next
  case (Cons a rest)
  from run_Cons_Inr [OF Cons.prems(1)] obtain s1 call calls1 where
    step: "reduce str s a = Inr (s1, call)" and rest: "run str s1 rest = Inr (s', calls1)"
    by blast
  from reduce_idsFresh [OF step Cons.prems(2)] have
    f1: "idsFresh s1" and m1: "nextId s \<le> nextId s1" and
    o1: "\<forall>i\<in>set (ids s1). i \<in> set (ids s) \<or> nextId s \<le> i"
    by auto
  from reduce_ids [OF step] have n1: "nextId s1 = nextId s + (if isAddPoint a then 1 else 0)"
    by simp
  from Cons.IH [OF rest f1] have
    f2: "idsFresh s'" and
    n2: "nextId s' = nextId s1 + int (length (filter isAddPoint rest))" and
    o2: "\<forall>i\<in>set (ids s'). i \<in> set (ids s1) \<or> nextId s1 \<le> i"
    by auto
  have "\<forall>i\<in>set (ids s'). i \<in> set (ids s) \<or> nextId s \<le> i"
    using o1 o2 m1 by fastforce
  with f2 n1 n2 show ?case by simp
qed

lemma idsFresh_initial: "idsFresh getInitialState"
  by (simp add: idsFresh_def ids_def getInitialState_def getEmptyPoint_def)

text \<open>
  C6: take three moments of a session that starts in the initial state, with states
  \<open>s0\<close>, \<open>s1\<close>, \<open>s2\<close> in this order.  \<^verbatim>\<open>nextId\<close> grows from \<open>s1\<close> to \<open>s2\<close> by the
  number of \<^verbatim>\<open>AddPoint\<close> actions in between and by nothing else; the ids of the waypoints
  of \<open>s2\<close> are pairwise different and below \<^verbatim>\<open>nextId\<close>; a waypoint of \<open>s2\<close> either has
  the id of a waypoint of \<open>s1\<close> or an id that is at least the \<^verbatim>\<open>nextId\<close> of \<open>s1\<close>; and an
  id that was in use in \<open>s0\<close> and has been removed by \<open>s1\<close> is not in use in \<open>s2\<close>.
\<close>

theorem ids_never_reused:
  assumes "run str getInitialState as0 = Inr (s0, calls0)"
      and "run str s0 as1 = Inr (s1, calls1)"
      and "run str s1 as2 = Inr (s2, calls2)"
  shows "nextId s2 = nextId s1 + int (length (filter isAddPoint as2)) \<and>
         distinct (map id' (queryPoints s2)) \<and>
         (\<forall>q\<in>set (queryPoints s2). id' q < nextId s2) \<and>
         (\<forall>q\<in>set (queryPoints s2).
            id' q \<in> id' ` set (queryPoints s1) \<or> nextId s1 \<le> id' q) \<and>
         (\<forall>p\<in>set (queryPoints s0).
            id' p \<notin> id' ` set (queryPoints s1) \<longrightarrow> id' p \<notin> id' ` set (queryPoints s2))"
proof -
  from run_idsFresh [OF assms(1) idsFresh_initial] have f0: "idsFresh s0" by simp
  from run_idsFresh [OF assms(2) f0] have f1: "idsFresh s1" and m01: "nextId s0 \<le> nextId s1"
    by simp_all
  from run_idsFresh [OF assms(3) f1] have f2: "idsFresh s2"
    and n: "nextId s2 = nextId s1 + int (length (filter isAddPoint as2))"
    and o: "\<forall>i\<in>set (ids s2). i \<in> set (ids s1) \<or> nextId s1 \<le> i"
    by simp_all
  from f0 have b0: "\<forall>i\<in>set (ids s0). i < nextId s0"
    by (simp add: idsFresh_def list_all_iff)
  have gone: "\<forall>i\<in>set (ids s0). i \<notin> set (ids s1) \<longrightarrow> i \<notin> set (ids s2)"
    using b0 m01 o by fastforce
  from f2 n o gone show ?thesis
    by (simp add: idsFresh_def ids_def list_all_iff)
qed

text \<open>
  An id that has been removed is not given out again: after adding a point (id 2) and
  removing it, the next added point gets id 3.
\<close>

theorem ids_never_reused_witness:
  "run noText getInitialState [AddPoint 1 origin False] =
     Inr (getInitialState\<lparr>nextId := 3,
            queryPoints := [getEmptyPoint 0 From, getEmptyPoint 2 Via, getEmptyPoint 1 To]\<rparr>, []) \<and>
   run noText
       (getInitialState\<lparr>nextId := 3,
          queryPoints := [getEmptyPoint 0 From, getEmptyPoint 2 Via, getEmptyPoint 1 To]\<rparr>)
       [RemovePoint (getEmptyPoint 2 Via)] =
     Inr (getInitialState\<lparr>nextId := 3\<rparr>, []) \<and>
   run noText (getInitialState\<lparr>nextId := 3\<rparr>) [AddPoint 1 origin False] =
     Inr (getInitialState\<lparr>nextId := 4,
            queryPoints := [getEmptyPoint 0 From, getEmptyPoint 3 Via, getEmptyPoint 1 To]\<rparr>, []) \<and>
   map id' (queryPoints (getInitialState\<lparr>nextId := 4,
            queryPoints := [getEmptyPoint 0 From, getEmptyPoint 3 Via, getEmptyPoint 1 To]\<rparr>)) =
     [0, 3, 1]"
proof -
  have r0: "run noText getInitialState [AddPoint 1 origin False] =
     Inr (getInitialState\<lparr>nextId := 3,
            queryPoints := [getEmptyPoint 0 From, getEmptyPoint 2 Via, getEmptyPoint 1 To]\<rparr>, [])"
    by (simp add: getInitialState_def getEmptyPoint_def origin_def andRoute_def
          routeIfAllPointsSet_def splice_insert_def retype_def getPointType_def Let_def)
  have r1: "run noText
       (getInitialState\<lparr>nextId := 3,
          queryPoints := [getEmptyPoint 0 From, getEmptyPoint 2 Via, getEmptyPoint 1 To]\<rparr>)
       [RemovePoint (getEmptyPoint 2 Via)] =
     Inr (getInitialState\<lparr>nextId := 3\<rparr>, [])"
    by (simp add: getInitialState_def getEmptyPoint_def andRoute_def
          routeIfAllPointsSet_def retype_def getPointType_def Let_def)
  have r2: "run noText (getInitialState\<lparr>nextId := 3\<rparr>) [AddPoint 1 origin False] =
     Inr (getInitialState\<lparr>nextId := 4,
            queryPoints := [getEmptyPoint 0 From, getEmptyPoint 3 Via, getEmptyPoint 1 To]\<rparr>, [])"
    by (simp add: getInitialState_def getEmptyPoint_def origin_def andRoute_def
          routeIfAllPointsSet_def splice_insert_def retype_def getPointType_def Let_def)
  from ids_never_reused [OF r0 r1 r2] r0 r1 r2 show ?thesis
    by (simp add: getEmptyPoint_def)
qed

subsection \<open>Roles and colors\<close>

lemma getPointType_roleAt: "i < n \<Longrightarrow> getPointType i (int n) = roleAt n i"
  by (auto simp: getPointType_def roleAt_def)

lemma retype_nth:
  "i < length xs \<Longrightarrow>
     map (retype m) (enumerate 0 xs) ! i =
       (xs ! i)\<lparr>color := getMarkerColor (getPointType i m), type := getPointType i m\<rparr>"
  by (simp add: nth_enumerate_eq retype_def Let_def)

lemma retype_colors:
  "list_all (\<lambda>p. color p = getMarkerColor (QueryPoint.type p)) (map (retype m) (enumerate k xs))"
  by (simp add: list_all_iff retype_def Let_def)

lemma rolesConsistent_retype:
  assumes "m = int (length xs)"
  shows "rolesConsistent (map (retype m) (enumerate 0 xs))"
proof -
  have "map QueryPoint.type (map (retype m) (enumerate 0 xs)) =
          map (roleAt (length xs)) [0..<length xs]"
  proof (rule nth_equalityI)
    show "length (map QueryPoint.type (map (retype m) (enumerate 0 xs))) =
            length (map (roleAt (length xs)) [0..<length xs])"
      by simp
  next
    fix i
    assume "i < length (map QueryPoint.type (map (retype m) (enumerate 0 xs)))"
    then have i: "i < length xs" by simp
    then have "map QueryPoint.type (map (retype m) (enumerate 0 xs)) ! i = getPointType i m"
      using retype_nth [OF i, of m] by simp
    with i assms show "map QueryPoint.type (map (retype m) (enumerate 0 xs)) ! i =
        map (roleAt (length xs)) [0..<length xs] ! i"
      by (simp add: getPointType_roleAt)
  qed
  with retype_colors [of m 0 xs] show ?thesis
    by (simp add: rolesConsistent_def)
qed

lemma length_filter_distinct:
  "distinct (map f xs) \<Longrightarrow> v \<in> f ` set xs \<Longrightarrow>
     Suc (length (filter (\<lambda>x. f x \<noteq> v) xs)) = length xs"
proof (induction xs)
  case Nil
  then show ?case by simp
next
  case (Cons x xs)
  show ?case
  proof (cases "f x = v")
    case True
    with Cons.prems have "\<forall>y\<in>set xs. f y \<noteq> v" by (auto simp: image_iff)
    then have "filter (\<lambda>y. f y \<noteq> v) xs = xs" by simp
    with True show ?thesis by simp
  next
    case False
    with Cons show ?thesis by auto
  qed
qed

lemma AddPoint_roles:
  assumes "reduce str s (AddPoint i c b) = Inr (s', call)"
  shows "rolesConsistent (queryPoints s')"
proof -
  from assms obtain tmp where
    "queryPoints s' = map (retype (int (length tmp))) (enumerate 0 tmp)"
    by (auto simp: andRoute_Inr Let_def)
  then show ?thesis by (simp add: rolesConsistent_retype)
qed

lemma RemovePoint_queryPoints:
  assumes "reduce str s (RemovePoint p) = Inr (s', call)"
  shows "queryPoints s' =
           map (retype (int (length (queryPoints s)) - 1))
             (enumerate 0 (filter (\<lambda>pt. id' pt \<noteq> id' p) (queryPoints s)))"
  using assms by (auto simp: andRoute_Inr Let_def)

lemma RemovePoint_present_roles:
  assumes "reduce str s (RemovePoint p) = Inr (s', call)"
      and "distinct (map id' (queryPoints s))"
      and "id' p \<in> id' ` set (queryPoints s)"
  shows "rolesConsistent (queryPoints s')"
proof -
  from length_filter_distinct [OF assms(2,3)]
  have "int (length (queryPoints s)) - 1 =
          int (length (filter (\<lambda>pt. id' pt \<noteq> id' p) (queryPoints s)))"
    by linarith
  then show ?thesis
    unfolding RemovePoint_queryPoints [OF assms(1)] by (rule rolesConsistent_retype)
qed

lemma reduce_profile_kept:
  assumes "reduce str s a = Inr (s', call)" and "isAddOrRemove a"
  shows "routingVehicle s' = routingVehicle s"
  using assms by (cases a) (auto simp: andRoute_Inr Let_def)

lemma run_AddRemove_returns:
  "list_all isAddOrRemove as \<Longrightarrow> routingVehicle s = Some v \<Longrightarrow>
     \<exists>s' calls. run str s as = Inr (s', calls)"
proof (induction as arbitrary: s)
  case Nil
  then show ?case by simp
next
  case (Cons a rest)
  from reduce_returns [OF Cons.prems(2)] obtain s1 call where
    step: "reduce str s a = Inr (s1, call)" by blast
  from Cons.prems(1) have "isAddOrRemove a" by simp
  from reduce_profile_kept [OF step this] Cons.prems(2) have "routingVehicle s1 = Some v"
    by simp
  with Cons.IH [of s1] Cons.prems(1) obtain s' calls where "run str s1 rest = Inr (s', calls)"
    by auto
  with step show ?case by simp
qed

lemma run_roles:
  "run str s as = Inr (s', calls) \<Longrightarrow> list_all isAddOrRemove as \<Longrightarrow>
   removalsPresent str s as \<Longrightarrow> idsFresh s \<Longrightarrow> rolesConsistent (queryPoints s) \<Longrightarrow>
     rolesConsistent (queryPoints s')"
proof (induction as arbitrary: s calls)
  case Nil
  then show ?case by simp
next
  case (Cons a rest)
  from run_Cons_Inr [OF Cons.prems(1)] obtain s1 call calls1 where
    step: "reduce str s a = Inr (s1, call)" and rest: "run str s1 rest = Inr (s', calls1)"
    by blast
  from reduce_idsFresh [OF step Cons.prems(4)] have f1: "idsFresh s1" by simp
  from Cons.prems(3) step have p1: "removalsPresent str s1 rest" by simp
  from Cons.prems(2) have ar: "isAddOrRemove a" "list_all isAddOrRemove rest" by simp_all
  have "rolesConsistent (queryPoints s1)"
  proof (cases a)
    case (AddPoint i c b)
    with step show ?thesis by (simp only: AddPoint_roles)
  next
    case (RemovePoint p)
    from Cons.prems(3) RemovePoint have "id' p \<in> id' ` set (queryPoints s)"
      by (simp add: ids_def)
    moreover from Cons.prems(4) have "distinct (map id' (queryPoints s))"
      by (simp add: idsFresh_def ids_def)
    ultimately show ?thesis
      using step RemovePoint RemovePoint_present_roles by blast
  qed (use ar in simp_all)
  from Cons.IH [OF rest ar(2) p1 f1 this] show ?case .
qed

lemma rolesConsistent_initial: "rolesConsistent (queryPoints getInitialState)"
  by (simp add: rolesConsistent_def getInitialState_def getEmptyPoint_def roleAt_def upt_rec)

lemma roles_after_present_removals:
  assumes "list_all isAddOrRemove as" and "removalsPresent str getInitialState as"
  shows "\<exists>s calls. run str getInitialState as = Inr (s, calls) \<and> rolesConsistent (queryPoints s)"
proof -
  have "\<exists>v. routingVehicle getInitialState = Some v"
    by (simp add: getInitialState_def)
  with run_AddRemove_returns [OF assms(1)] obtain s calls where
    r: "run str getInitialState as = Inr (s, calls)" by blast
  from run_roles [OF r assms idsFresh_initial rolesConsistent_initial] r show ?thesis
    by blast
qed

text \<open>
  C9: when the id of the point of a \<^verbatim>\<open>RemovePoint\<close> action is not in the waypoint list,
  no waypoint is removed, and every waypoint is given the role and color of its index in
  a list that is one shorter.  With two or more waypoints the last one becomes a via
  point, so the list does not satisfy the role invariant.
\<close>

theorem RemovePoint_absent_roles:
  assumes "id' p \<notin> id' ` set (queryPoints state)"
      and "reduce str state (RemovePoint p) = Inr (state', call)"
  shows "length (queryPoints state') = length (queryPoints state) \<and>
         (\<forall>i<length (queryPoints state).
            queryPoints state' ! i =
              (queryPoints state ! i)
                \<lparr>color := getMarkerColor (getPointType i (int (length (queryPoints state)) - 1)),
                 type := getPointType i (int (length (queryPoints state)) - 1)\<rparr>) \<and>
         (2 \<le> length (queryPoints state) \<longrightarrow>
            QueryPoint.type (last (queryPoints state')) = Via \<and>
            color (last (queryPoints state')) = getMarkerColor Via \<and>
            \<not> rolesConsistent (queryPoints state'))"
proof -
  let ?ps = "queryPoints state"
  let ?m = "int (length ?ps) - 1"
  from assms(1) have "\<forall>pt\<in>set ?ps. id' pt \<noteq> id' p"
    by (metis imageI)
  then have "filter (\<lambda>pt. id' pt \<noteq> id' p) ?ps = ?ps"
    by simp
  with RemovePoint_queryPoints [OF assms(2)]
  have eq: "queryPoints state' = map (retype ?m) (enumerate 0 ?ps)"
    by simp
  have len: "length (queryPoints state') = length ?ps"
    by (simp add: eq)
  have nth: "\<forall>i<length ?ps. queryPoints state' ! i =
      (?ps ! i)\<lparr>color := getMarkerColor (getPointType i ?m), type := getPointType i ?m\<rparr>"
    unfolding eq using retype_nth [of _ ?ps ?m] by blast
  have "QueryPoint.type (last (queryPoints state')) = Via \<and>
        color (last (queryPoints state')) = getMarkerColor Via \<and>
        \<not> rolesConsistent (queryPoints state')" if two: "2 \<le> length ?ps"
  proof -
    let ?k = "length ?ps - 1"
    from two have k: "?k < length ?ps" "?k \<noteq> 0" by simp_all
    from two len have "queryPoints state' \<noteq> []" by auto
    then have "last (queryPoints state') = queryPoints state' ! ?k"
      by (simp add: last_conv_nth len)
    also from nth k have "\<dots> =
        (?ps ! ?k)\<lparr>color := getMarkerColor (getPointType ?k ?m), type := getPointType ?k ?m\<rparr>"
      by blast
    finally have l: "last (queryPoints state') =
        (?ps ! ?k)\<lparr>color := getMarkerColor (getPointType ?k ?m), type := getPointType ?k ?m\<rparr>" .
    from two have via: "getPointType ?k ?m = Via"
      by (auto simp: getPointType_def)
    have t: "QueryPoint.type (queryPoints state' ! ?k) = Via"
      using nth k via by simp
    have "\<not> rolesConsistent (queryPoints state')"
    proof
      assume "rolesConsistent (queryPoints state')"
      then have "map QueryPoint.type (queryPoints state') ! ?k =
                 map (roleAt (length (queryPoints state'))) [0..<length (queryPoints state')] ! ?k"
        by (simp add: rolesConsistent_def)
      with k len have "QueryPoint.type (queryPoints state' ! ?k) = roleAt (length ?ps) ?k"
        by simp
      with t k show False by (simp add: roleAt_def)
    qed
    with l via show ?thesis by simp
  qed
  with len nth show ?thesis by blast
qed

theorem RemovePoint_absent_roles_witness:
  "reduce noText getInitialState (RemovePoint (getEmptyPoint 7 Via)) =
     Inr (getInitialState
            \<lparr>queryPoints :=
               [getEmptyPoint 0 From,
                (getEmptyPoint 1 To)\<lparr>color := getMarkerColor Via, type := Via\<rparr>]\<rparr>,
          None) \<and>
   QueryPoint.type (last (queryPoints (getInitialState
            \<lparr>queryPoints :=
               [getEmptyPoint 0 From,
                (getEmptyPoint 1 To)\<lparr>color := getMarkerColor Via, type := Via\<rparr>]\<rparr>))) = Via"
proof -
  have absent: "id' (getEmptyPoint 7 Via) \<notin> id' ` set (queryPoints getInitialState)"
    by (simp add: getInitialState_def getEmptyPoint_def)
  have step: "reduce noText getInitialState (RemovePoint (getEmptyPoint 7 Via)) =
     Inr (getInitialState
            \<lparr>queryPoints :=
               [getEmptyPoint 0 From,
                (getEmptyPoint 1 To)\<lparr>color := getMarkerColor Via, type := Via\<rparr>]\<rparr>,
          None)"
    by (simp add: getInitialState_def getEmptyPoint_def andRoute_def
          routeIfAllPointsSet_def retype_def getPointType_def Let_def)
  from RemovePoint_absent_roles [OF absent step] step show ?thesis
    by (simp add: getInitialState_def)
qed

text \<open>
  C2: after sequences of \<^verbatim>\<open>AddPoint\<close> and \<^verbatim>\<open>RemovePoint\<close> in which every removed point
  is in the list (lemma \<open>roles_after_present_removals\<close>) the role invariant holds.  It
  fails when a point is removed a second time: from the initial state, adding a via
  point and removing it twice leaves two waypoints with the roles start and via.
\<close>

theorem RemovePoint_twice_breaks_roles:
  "run noText getInitialState
     [AddPoint 1 origin False, RemovePoint (getEmptyPoint 2 Via),
      RemovePoint (getEmptyPoint 2 Via)] =
     Inr (getInitialState
            \<lparr>nextId := 3,
             queryPoints :=
               [getEmptyPoint 0 From,
                (getEmptyPoint 1 To)\<lparr>color := getMarkerColor Via, type := Via\<rparr>]\<rparr>,
          []) \<and>
   map QueryPoint.type
     [getEmptyPoint 0 From, (getEmptyPoint 1 To)\<lparr>color := getMarkerColor Via, type := Via\<rparr>] =
     [From, Via] \<and>
   \<not> rolesConsistent
     [getEmptyPoint 0 From, (getEmptyPoint 1 To)\<lparr>color := getMarkerColor Via, type := Via\<rparr>]"
  by (simp add: getInitialState_def getEmptyPoint_def origin_def andRoute_def
        routeIfAllPointsSet_def splice_insert_def retype_def getPointType_def Let_def
        rolesConsistent_def roleAt_def upt_rec)

subsection \<open>ClearPoints\<close>

text \<open>
  C5: \<^verbatim>\<open>ClearPoints\<close> keeps the number and order of the waypoints; every waypoint
  gets an empty query text and is marked uninitialized, its id, role, color and
  coordinate stay as they were (the zero coordinate is written to the property
  \<^verbatim>\<open>point\<close>, not to \<^verbatim>\<open>coordinate\<close>); \<^verbatim>\<open>nextId\<close> and the selected profile are
  unchanged, and nothing is routed.
\<close>

theorem ClearPoints_frame:
  "\<exists>state'.
     reduce str state ClearPoints = Inr (state', None) \<and>
     list_all2
       (\<lambda>old new. queryText new = '''' \<and> isInitialized new = False \<and>
                   id' new = id' old \<and> QueryPoint.type new = QueryPoint.type old \<and>
                   color new = color old \<and> coordinate new = coordinate old \<and>
                   point new = Some \<lparr>lat = 0, lng = 0\<rparr>)
       (queryPoints state) (queryPoints state') \<and>
     nextId state' = nextId state \<and>
     routingVehicle state' = routingVehicle state"
  by (simp add: list_all2_map2 list_all2_same)

subsection \<open>InfoReceived\<close>

text \<open>
  C8: \<^verbatim>\<open>InfoReceived\<close> emits no request and changes neither the waypoints nor
  \<^verbatim>\<open>nextId\<close>.  When some vehicle of the list has key \<^verbatim>\<open>car\<close>, the first such vehicle
  becomes the selected profile; otherwise the first vehicle of the list does (and
  \<^verbatim>\<open>undefined\<close> when the list is empty, where there is no first vehicle).
\<close>

theorem InfoReceived_profile:
  "\<exists>state'.
     reduce str state (InfoReceived result) = Inr (state', None) \<and>
     queryPoints state' = queryPoints state \<and>
     nextId state' = nextId state \<and>
     ((\<exists>v\<in>set (vehicles result). RoutingVehicle.key v = ''car'') \<longrightarrow>
        (\<exists>pre c post. vehicles result = pre @ c # post \<and> RoutingVehicle.key c = ''car'' \<and>
           (\<forall>v\<in>set pre. RoutingVehicle.key v \<noteq> ''car'') \<and> routingVehicle state' = Some c)) \<and>
     ((\<forall>v\<in>set (vehicles result). RoutingVehicle.key v \<noteq> ''car'') \<longrightarrow>
        (\<forall>v rest. vehicles result = v # rest \<longrightarrow> routingVehicle state' = Some v) \<and>
        (vehicles result = [] \<longrightarrow> routingVehicle state' = None))"
proof (cases "find_first (\<lambda>v. RoutingVehicle.key v = ''car'') (vehicles result)")
  case None
  then have "\<forall>v\<in>set (vehicles result). RoutingVehicle.key v \<noteq> ''car''"
    by (simp add: find_first_None)
  with None show ?thesis by (auto simp: Let_def)
next
  case (Some c)
  from find_first_Some [OF this] obtain pre post where
    "vehicles result = pre @ c # post" "RoutingVehicle.key c = ''car''"
    "\<forall>v\<in>set pre. RoutingVehicle.key v \<noteq> ''car''"
    by blast
  with Some show ?thesis by (auto simp: Let_def)
qed

theorem InfoReceived_profile_witness:
  "reduce noText readyState (InfoReceived (apiInfo [profile ''bike'', profile ''car'', profile ''foot''])) =
     Inr (readyState\<lparr>routingVehicle := Some (profile ''car'')\<rparr>, None) \<and>
   reduce noText readyState (InfoReceived (apiInfo [profile ''bike'', profile ''foot''])) =
     Inr (readyState\<lparr>routingVehicle := Some (profile ''bike'')\<rparr>, None)"
  using InfoReceived_profile [of noText readyState "apiInfo [profile ''bike'', profile ''car'', profile ''foot'']"]
    InfoReceived_profile [of noText readyState "apiInfo [profile ''bike'', profile ''foot'']"]
  by (simp add: apiInfo_def profile_def)

text \<open>
  C10: when no vehicle has key \<^verbatim>\<open>car\<close>, the reducer stores \<^verbatim>\<open>result.vehicles[0]\<close>.
  The stored profile is a vehicle exactly when the list is non-empty, that is when
  index 0 is within bounds; for the empty list \<^verbatim>\<open>undefined\<close> is stored.
\<close>

theorem InfoReceived_without_car:
  assumes "\<forall>v\<in>set (vehicles result). RoutingVehicle.key v \<noteq> ''car''"
  shows "\<exists>state'.
     reduce str state (InfoReceived result) = Inr (state', None) \<and>
     routingVehicle state' = index0 (vehicles result) \<and>
     (routingVehicle state' = None) = (vehicles result = []) \<and>
     (0 < length (vehicles result) \<longrightarrow> routingVehicle state' = Some (vehicles result ! 0))"
proof -
  from assms have "find_first (\<lambda>v. RoutingVehicle.key v = ''car'') (vehicles result) = None"
    by (simp add: find_first_None)
  then show ?thesis by (simp add: Let_def index0_eq)
qed

text \<open>
  For the empty list the stored profile is \<^verbatim>\<open>undefined\<close>, and the next transition that
  is ready to route throws when it reads the profile's key.
\<close>

theorem InfoReceived_without_car_witness:
  "reduce noText readyState (InfoReceived (apiInfo [])) =
     Inr (readyState\<lparr>routingVehicle := None\<rparr>, None) \<and>
   reduce noText (readyState\<lparr>routingVehicle := None\<rparr>) (SetPoint pointB) = Inl TypeError \<and>
   reduce noText readyState (InfoReceived (apiInfo [profile ''foot'', profile ''bike''])) =
     Inr (readyState\<lparr>routingVehicle := Some (profile ''foot'')\<rparr>, None)"
proof -
  have h: "\<forall>v\<in>set (vehicles (apiInfo [])). RoutingVehicle.key v \<noteq> ''car''"
    by (simp add: apiInfo_def)
  from InfoReceived_without_car [OF h, of noText readyState] show ?thesis
    by (simp add: apiInfo_def profile_def readyState_def pointA_def pointB_def
          getInitialState_def getEmptyPoint_def andRoute_def routeIfAllPointsSet_def)
qed

section \<open>Properties of the routing client\<close>

subsection \<open>The request body\<close>

text \<open>
  C7 (as amended): the body of every route request has the caller's points and, as
  vehicle, the caller's vehicle when that is present and not the empty string, and
  \<^verbatim>\<open>car\<close> when it is absent or the empty string.  The other fields are fixed: locale
  \<^verbatim>\<open>en\<close>, debug false, points_encoded true, instructions true, elevation false, optimize
  \<^verbatim>\<open>false\<close>, alternative_route.max_paths 2, ch.disable true, algorithm
  \<^verbatim>\<open>alternative_route\<close>.  Two calls with the same points and vehicle produce the same body,
  whatever else the caller passes.
\<close>

theorem createRequest_defaults:
  "RoutingRequest.points (createRequest args) = RoutingArgs.points args \<and>
   (\<forall>v. RoutingArgs.vehicle args = Some v \<and> v \<noteq> '''' \<longrightarrow>
        RoutingRequest.vehicle (createRequest args) = v) \<and>
   (RoutingArgs.vehicle args = None \<or> RoutingArgs.vehicle args = Some '''' \<longrightarrow>
        RoutingRequest.vehicle (createRequest args) = ''car'') \<and>
   locale' (createRequest args) = ''en'' \<and>
   debug (createRequest args) = False \<and>
   RoutingRequest.points_encoded (createRequest args) = True \<and>
   RoutingRequest.instructions (createRequest args) = True \<and>
   RoutingRequest.elevation (createRequest args) = False \<and>
   optimize (createRequest args) = ''false'' \<and>
   alternative_route_max_paths (createRequest args) = Some 2 \<and>
   ch_disable (createRequest args) = Some True \<and>
   algorithm (createRequest args) = Some alternative_route \<and>
   (\<forall>other :: 'b RoutingArgs_scheme.
      RoutingArgs.points other = RoutingArgs.points args \<and>
      RoutingArgs.vehicle other = RoutingArgs.vehicle args \<longrightarrow>
        createRequest other = createRequest args)"
  by (auto simp: createRequest_def)

text \<open>
  The caller's \<^verbatim>\<open>host\<close>, \<^verbatim>\<open>basePath\<close>, \<^verbatim>\<open>key\<close> and \<^verbatim>\<open>points_encoded: false\<close> leave no
  trace in the body.
\<close>

theorem createRequest_defaults_witness:
  "createRequest
     \<lparr>RoutingArgs.points = [(13, 52), (11, 48)], host = Some ''h'', basePath = Some ''/r'',
      RoutingArgs.vehicle = Some ''bike'', CallArgs.key = ghKey,
      CallArgs.points_encoded = False\<rparr> =
   \<lparr>RoutingRequest.points = [(13, 52), (11, 48)], RoutingRequest.vehicle = ''bike'',
    locale' = ''en'', debug = False, RoutingRequest.points_encoded = True,
    RoutingRequest.instructions = True, RoutingRequest.elevation = False,
    optimize = ''false'', alternative_route_max_paths = Some 2, ch_disable = Some True,
    algorithm = Some alternative_route\<rparr> \<and>
   createRequest
     \<lparr>RoutingArgs.points = [(13, 52), (11, 48)], host = None, basePath = None,
      RoutingArgs.vehicle = Some ''bike''\<rparr> =
   createRequest
     \<lparr>RoutingArgs.points = [(13, 52), (11, 48)], host = Some ''h'', basePath = Some ''/r'',
      RoutingArgs.vehicle = Some ''bike'', CallArgs.key = ghKey,
      CallArgs.points_encoded = False\<rparr>"
  using createRequest_defaults
    [of "\<lparr>RoutingArgs.points = [(13, 52), (11, 48)], host = Some ''h'', basePath = Some ''/r'',
          RoutingArgs.vehicle = Some ''bike'', CallArgs.key = ghKey,
          CallArgs.points_encoded = False\<rparr>"]
  by (simp add: createRequest_def)

text \<open>
  C7 as stated fails for a vehicle that is present and empty, which is what the store
  passes while its profile is still the initial one: the body asks for \<^verbatim>\<open>car\<close>.
\<close>

theorem createRequest_empty_vehicle_counterexample:
  "RoutingArgs.vehicle sentinelCall = Some '''' \<and>
   RoutingRequest.vehicle (createRequest sentinelCall) = ''car''"
  by (simp add: sentinelCall_def createRequest_def)

subsection \<open>Instruction geometry\<close>

lemma take_drop_nth:
  "take n (drop m xs) = map (nth xs) [m..<min (m + n) (length xs)]"
proof (rule nth_equalityI)
  show "length (take n (drop m xs)) = length (map (nth xs) [m..<min (m + n) (length xs)])"
    by auto
next
  fix i
  assume "i < length (take n (drop m xs))"
  then have i: "i < n" "m + i < length xs" by auto
  then have b: "m + i < min (m + n) (length xs)" by simp
  then have "i < min (m + n) (length xs) - m"
    by arith
  then have "i < length [m..<min (m + n) (length xs)]"
    by (simp only: length_upt)
  then have "map (nth xs) [m..<min (m + n) (length xs)] ! i =
             xs ! ([m..<min (m + n) (length xs)] ! i)"
    by (rule nth_map)
  also from b have "[m..<min (m + n) (length xs)] ! i = m + i"
    by (rule nth_upt)
  finally have "map (nth xs) [m..<min (m + n) (length xs)] ! i = xs ! (m + i)" .
  with i show "take n (drop m xs) ! i = map (nth xs) [m..<min (m + n) (length xs)] ! i"
    by simp
qed

lemma upt_eq_cases:
  "(a = c \<and> b = d) \<or> (b \<le> a \<and> d \<le> c) \<Longrightarrow> [a..<b] = [c..<(d::nat)]"
  by auto

lemma array_slice_inclusive:
  assumes "0 \<le> s" and "0 \<le> e"
  shows "array_slice xs s (e + 1) = map (nth xs) [nat s..<min (nat e + 1) (length xs)]"
proof -
  define S E L where "S = nat s" and "E = nat e" and "L = length xs"
  from assms have s: "s = int S" and e: "e = int E"
    by (simp_all add: S_def E_def)
  have lo: "nat (min (int S) (int L)) = min S L"
    by simp
  have cnt: "nat (min (int E + 1) (int L) - min (int S) (int L)) = min (E + 1) L - min S L"
    by arith
  have "array_slice xs s (e + 1) =
          take (nat (min (int E + 1) (int L) - min (int S) (int L)))
            (drop (nat (min (int S) (int L))) xs)"
    by (simp add: array_slice_def Let_def s e L_def)
  also have "\<dots> = take (min (E + 1) L - min S L) (drop (min S L) xs)"
    by (simp only: lo cnt)
  also have "\<dots> = map (nth xs) [min S L..<min (min S L + (min (E + 1) L - min S L)) L]"
    unfolding L_def by (rule take_drop_nth)
  also have "[min S L..<min (min S L + (min (E + 1) L - min S L)) L] = [S..<min (E + 1) L]"
    by (rule upt_eq_cases) arith
  finally show ?thesis
    by (simp only: S_def E_def L_def)
qed

text \<open>
  C4: for an instruction with the interval \<open>[startIdx, endIdx]\<close> of indices into the
  path's coordinates, the points set on the instruction are the coordinates at the
  indices \<open>startIdx, \<dots>, endIdx\<close>, the last one included (as far as the path has them);
  the other fields of the instruction are kept.  For \<open>startIdx \<le> endIdx\<close> within the
  path these are \<open>endIdx - startIdx + 1\<close> points.
\<close>

theorem instruction_points_inclusive:
  assumes "Path.instructions path = Some ins"
      and "k < length ins"
      and "interval (ins ! k) = (startIdx, endIdx)"
      and "0 \<le> startIdx" and "0 \<le> endIdx"
  shows "\<exists>ins'.
     setPointsOnInstructions path = Some ins' \<and>
     length ins' = length ins \<and>
     ins' ! k =
       (ins ! k)\<lparr>Instruction.points :=
          map (nth (coordinates (Path.points path)))
            [nat startIdx..<min (nat endIdx + 1) (length (coordinates (Path.points path)))]\<rparr> \<and>
     (startIdx \<le> endIdx \<and> endIdx < int (length (coordinates (Path.points path))) \<longrightarrow>
        length (Instruction.points (ins' ! k)) = nat (endIdx - startIdx + 1))"
proof -
  let ?cs = "coordinates (Path.points path)"
  let ?ins' = "map (\<lambda>instruction.
                       instruction\<lparr>Instruction.points :=
                         array_slice ?cs
                           (fst (interval instruction)) (snd (interval instruction) + 1)\<rparr>) ins"
  from assms(1) have r: "setPointsOnInstructions path = Some ?ins'"
    by (simp add: setPointsOnInstructions_def)
  from assms(2,3) have "?ins' ! k =
      (ins ! k)\<lparr>Instruction.points := array_slice ?cs startIdx (endIdx + 1)\<rparr>"
    by simp
  then have nth: "?ins' ! k =
      (ins ! k)\<lparr>Instruction.points :=
         map (nth ?cs) [nat startIdx..<min (nat endIdx + 1) (length ?cs)]\<rparr>"
    by (simp only: array_slice_inclusive [OF assms(4,5)])
  have "length (Instruction.points (?ins' ! k)) = nat (endIdx - startIdx + 1)"
    if "startIdx \<le> endIdx" "endIdx < int (length ?cs)"
  proof -
    from nth have "length (Instruction.points (?ins' ! k)) =
        min (nat endIdx + 1) (length ?cs) - nat startIdx"
      by (simp del: upt_Suc)
    with that assms(4,5) show ?thesis by linarith
  qed
  with r nth show ?thesis by (simp del: upt_Suc)
qed

text \<open>An instruction with the interval \<open>[0, 2]\<close> over a path of five points gets three.\<close>

theorem instruction_points_inclusive_witness:
  "setPointsOnInstructions fivePointPath =
     Some [turn\<lparr>Instruction.points := [[0, 0], [1, 1], [2, 2]]\<rparr>] \<and>
   length (Instruction.points (turn\<lparr>Instruction.points := [[0, 0], [1, 1], [2, 2]]\<rparr>)) = 3"
proof -
  have i: "Path.instructions fivePointPath = Some [turn]"
    by (simp add: fivePointPath_def)
  have k: "0 < length [turn]"
    by simp
  have v: "interval ([turn] ! 0) = (0, 2)"
    by (simp add: turn_def)
  from instruction_points_inclusive [OF i k v] obtain ins' where
    r: "setPointsOnInstructions fivePointPath = Some ins'" and
    l: "length ins' = length [turn]" and
    n: "ins' ! 0 =
          ([turn] ! 0)\<lparr>Instruction.points :=
             map (nth (coordinates (Path.points fivePointPath)))
               [nat 0..<min (nat 2 + 1) (length (coordinates (Path.points fivePointPath)))]\<rparr>"
    by auto
  from n have "ins' ! 0 = turn\<lparr>Instruction.points := [[0, 0], [1, 1], [2, 2]]\<rparr>"
    by (simp add: fivePointPath_def upt_rec)
  with l have "ins' = [turn\<lparr>Instruction.points := [[0, 0], [1, 1], [2, 2]]\<rparr>]"
    by (cases ins') auto
  with r show ?thesis
    by simp
qed

subsection \<open>The reference polyline\<close>

lemma decodePath_reference_sums:
  "decodePath fl ''_p~iF~ps|U_ulLnnqC_mqNvxq`@'' False =
     [[fl (-12020000 * fl (1 / 100000)), fl (3850000 * fl (1 / 100000))],
      [fl (-12095000 * fl (1 / 100000)), fl (4070000 * fl (1 / 100000))],
      [fl (-12645300 * fl (1 / 100000)), fl (4325200 * fl (1 / 100000))]]"
  by code_simp

text \<open>The six numbers that the decoder reads from the reference string.\<close>

lemma reference_deltas:
  "map (\<lambda>i. unzigzag (snd (readValue ''_p~iF~ps|U_ulLnnqC_mqNvxq`@'' i 0 0)))
     [0, 5, 10, 14, 18, 22] =
   [3850000, -12020000, 220000, -75000, 255200, -550300]"
  by code_simp

lemma scaled_close:
  fixes fl :: "real \<Rightarrow> real" and n :: real
  assumes fl: "\<And>x. \<bar>x\<bar> \<le> 1000 \<Longrightarrow> \<bar>fl x - x\<bar> \<le> 1 / 10 ^ 13"
      and n: "\<bar>n\<bar> \<le> 13000000"
  shows "\<bar>fl (n * fl (1 / 100000)) - n / 100000\<bar> \<le> 1 / 100000"
proof -
  define c where "c = fl (1 / 100000)"
  have "\<bar>c - 1 / 100000\<bar> \<le> 1 / 10 ^ 13"
    unfolding c_def by (rule fl) simp
  with n have "\<bar>n\<bar> * \<bar>c - 1 / 100000\<bar> \<le> 13000000 * (1 / 10 ^ 13)"
    by (intro mult_mono) simp_all
  moreover have "n * c - n / 100000 = n * (c - 1 / 100000)"
    by (simp add: algebra_simps)
  ultimately have "\<bar>n * c - n / 100000\<bar> \<le> 13000000 * (1 / 10 ^ 13)"
    by (simp only: abs_mult)
  then have d1: "\<bar>n * c - n / 100000\<bar> \<le> 1 / 500000"
    by simp
  from n have q: "\<bar>n / 100000\<bar> \<le> 130"
    by simp
  from d1 q have "\<bar>n * c\<bar> \<le> 1000"
    by linarith
  then have "\<bar>fl (n * c) - n * c\<bar> \<le> 1 / 10 ^ 13"
    by (rule fl)
  then have d2: "\<bar>fl (n * c) - n * c\<bar> \<le> 1 / 500000"
    by simp
  from d1 d2 have "\<bar>fl (n * c) - n / 100000\<bar> \<le> 1 / 100000"
    by linarith
  then show ?thesis
    by (simp only: c_def)
qed

text \<open>
  C3: the two-dimensional decoding of the reference string has three points, each
  within \<open>1e-5\<close> of \<open>[-120.2, 38.5]\<close>, \<open>[-120.95, 40.7]\<close>, \<open>[-126.453, 43.252]\<close>.  Each
  point is \<open>[lng, lat]\<close>, the running sums of the decoded deltas multiplied by \<^verbatim>\<open>1e-5\<close>;
  the deltas are the numbers read at the positions 0, 5, 10, 14, 18 and 22 of the string.
  This holds for every rounding \<open>fl\<close> that moves a number of magnitude up to 1000 by at
  most \<open>1e-13\<close>, as rounding to the nearest double does.
\<close>

theorem decodePath_reference:
  assumes "\<And>x. \<bar>x\<bar> \<le> 1000 \<Longrightarrow> \<bar>fl x - x\<bar> \<le> 1 / 10 ^ 13"
  shows "list_all2 (list_all2 (\<lambda>a b. \<bar>a - b\<bar> \<le> 1 / 100000))
           (decodePath fl ''_p~iF~ps|U_ulLnnqC_mqNvxq`@'' False)
           [[-120.2, 38.5], [-120.95, 40.7], [-126.453, 43.252]] \<and>
         decodePath fl ''_p~iF~ps|U_ulLnnqC_mqNvxq`@'' False =
           map (\<lambda>(latSum, lngSum). [fl (of_int lngSum * fl (1 / 100000)),
                                     fl (of_int latSum * fl (1 / 100000))])
             [(3850000, -12020000),
              (3850000 + 220000, -12020000 + (-75000)),
              (3850000 + 220000 + 255200, -12020000 + (-75000) + (-550300))] \<and>
         map (\<lambda>i. unzigzag (snd (readValue ''_p~iF~ps|U_ulLnnqC_mqNvxq`@'' i 0 0)))
             [0, 5, 10, 14, 18, 22] =
           [3850000, -12020000, 220000, -75000, 255200, -550300]"
proof -
  note c = scaled_close [OF assms]
  have "\<bar>fl (-12020000 * fl (1 / 100000)) - (-120.2)\<bar> \<le> 1 / 100000"
    using c [of "-12020000"] by simp
  moreover have "\<bar>fl (3850000 * fl (1 / 100000)) - 38.5\<bar> \<le> 1 / 100000"
    using c [of "3850000"] by simp
  moreover have "\<bar>fl (-12095000 * fl (1 / 100000)) - (-120.95)\<bar> \<le> 1 / 100000"
    using c [of "-12095000"] by simp
  moreover have "\<bar>fl (4070000 * fl (1 / 100000)) - 40.7\<bar> \<le> 1 / 100000"
    using c [of "4070000"] by simp
  moreover have "\<bar>fl (-12645300 * fl (1 / 100000)) - (-126.453)\<bar> \<le> 1 / 100000"
    using c [of "-12645300"] by simp
  moreover have "\<bar>fl (4325200 * fl (1 / 100000)) - 43.252\<bar> \<le> 1 / 100000"
    using c [of "4325200"] by simp
  ultimately have
    "list_all2 (list_all2 (\<lambda>a b. \<bar>a - b\<bar> \<le> 1 / 100000))
       (decodePath fl ''_p~iF~ps|U_ulLnnqC_mqNvxq`@'' False)
       [[-120.2, 38.5], [-120.95, 40.7], [-126.453, 43.252]]"
    by (simp add: decodePath_reference_sums)
  moreover have
    "decodePath fl ''_p~iF~ps|U_ulLnnqC_mqNvxq`@'' False =
       map (\<lambda>(latSum, lngSum). [fl (of_int lngSum * fl (1 / 100000)),
                                 fl (of_int latSum * fl (1 / 100000))])
         [(3850000, -12020000),
          (3850000 + 220000, -12020000 + (-75000)),
          (3850000 + 220000 + 255200, -12020000 + (-75000) + (-550300))]"
    by (simp add: decodePath_reference_sums)
  moreover note reference_deltas
  ultimately show ?thesis by (intro conjI)
qed

text \<open>With exact arithmetic the decoded coordinates are the reference coordinates.\<close>

theorem decodePath_reference_witness:
  "decodePath (\<lambda>x. x) ''_p~iF~ps|U_ulLnnqC_mqNvxq`@'' False =
     [[-120.2, 38.5], [-120.95, 40.7], [-126.453, 43.252]]"
proof -
  have "\<bar>(\<lambda>x. x) x - x\<bar> \<le> 1 / 10 ^ 13" for x :: real
    by simp
  from decodePath_reference [of "\<lambda>x. x", OF this] show ?thesis
    by simp
qed

end
